theory Spec2Isabelle
  imports Complex_Main
begin

section \<open>Data model of heredity.py\<close>

text \<open>
  Python floats are modelled as exact reals: rounding is outside the model, so every
  equality below is an equality of exact arithmetic. The calls to \<^verbatim>\<open>print\<close> are
  left out (standard output is not part of the state).

  A person is the dict built by \<^verbatim>\<open>load_data\<close>; a blank parent or trait field is
  \<^verbatim>\<open>None\<close>.
\<close>

record person =
  name :: string
  mother :: "string option"
  father :: "string option"
  trait :: "bool option"

text \<open>
  The dict \<^verbatim>\<open>people\<close> is an association list in insertion order. A Python dict has
  each key once, so \<^verbatim>\<open>for person in people\<close> followed by \<^verbatim>\<open>people[person]\<close>
  visits every entry of the list in turn.
\<close>

type_synonym people = "(string \<times> person) list"

datatype error = UnboundLocalError | ZeroDivisionError

subsection \<open>The table PROBS\<close>

text \<open>The keys of the gene tables are 2, 1 and 0; no other key is ever looked up.\<close>

definition PROBS_gene :: "nat \<Rightarrow> real" where
  "PROBS_gene g = (if g = 2 then 0.01 else if g = 1 then 0.03 else 0.96)"

definition PROBS_trait :: "nat \<Rightarrow> bool \<Rightarrow> real" where
  "PROBS_trait g t =
     (if g = 2 then (if t then 0.65 else 0.35)
      else if g = 1 then (if t then 0.56 else 0.44)
      else (if t then 0.01 else 0.99))"

definition PROBS_mutation :: real where
  "PROBS_mutation = 0.01"

section \<open>joint\_probability\<close>

text \<open>
  The locals of \<^verbatim>\<open>joint_probability\<close> that live across iterations of its loop.
  \<^verbatim>\<open>from_mother\<close> and \<^verbatim>\<open>from_father\<close> are function-level variables: unbound
  (\<open>None\<close>) until first assigned, and keeping their value from one person to the next.
\<close>

record jp_locals =
  from_mother :: "real option"
  from_father :: "real option"
  probabilites :: "real list"

definition person_genes_of :: "string set \<Rightarrow> string set \<Rightarrow> string \<Rightarrow> nat" where
  "person_genes_of one_gene two_genes person =
     (if person \<in> two_genes then 2 else if person \<in> one_gene then 1 else 0)"

text \<open>The three-way choice on \<^verbatim>\<open>person_genes\<close> (lines 170 to 175).\<close>

definition gene_given_parents :: "nat \<Rightarrow> real \<Rightarrow> real \<Rightarrow> real" where
  "gene_given_parents person_genes fm ff =
     (if person_genes = 2 then fm * ff
      else if person_genes = 1 then (1 - fm) * ff + (1 - ff) * fm
      else (1 - fm) * (1 - ff))"

text \<open>One iteration of the loop over \<^verbatim>\<open>people\<close> (lines 143 to 183).\<close>

definition person_step ::
  "string set \<Rightarrow> string set \<Rightarrow> string set \<Rightarrow> string \<times> person \<Rightarrow> jp_locals \<Rightarrow> error + jp_locals"
where
  "person_step one_gene two_genes have_trait entry st =
     (let person = fst entry;
          r = snd entry;
          person_prob = (1::real);
          person_genes = person_genes_of one_gene two_genes person;
          person_trait = (person \<in> have_trait)
      in
      if person \<notin> one_gene \<or> person \<notin> two_genes then
        if mother r \<noteq> None \<or> father r \<noteq> None then
          let st1 = (case mother r of
                       None \<Rightarrow> st
                     | Some m \<Rightarrow> st\<lparr>from_mother := Some
                         (if m \<in> one_gene then 0.5
                          else if m \<in> two_genes then 1 - PROBS_mutation
                          else PROBS_mutation)\<rparr>);
              st2 = (case father r of
                       None \<Rightarrow> st1
                     | Some f \<Rightarrow> st1\<lparr>from_father := Some
                         (if f \<in> one_gene then 0.5
                          else if f \<in> two_genes then 1 - PROBS_mutation
                          else PROBS_mutation)\<rparr>)
          in (case from_mother st2 of
                None \<Rightarrow> Inl UnboundLocalError
              | Some fm \<Rightarrow>
                 (case from_father st2 of
                    None \<Rightarrow> Inl UnboundLocalError
                  | Some ff \<Rightarrow>
                      Inr (st2\<lparr>probabilites := probabilites st2 @
                        [person_prob * gene_given_parents person_genes fm ff
                           * PROBS_trait person_genes person_trait]\<rparr>)))
        else
          Inr (st\<lparr>probabilites := probabilites st @
            [person_prob * (PROBS_gene person_genes * PROBS_trait person_genes person_trait)]\<rparr>)
      else Inr st)"

fun jp_loop ::
  "string set \<Rightarrow> string set \<Rightarrow> string set \<Rightarrow> people \<Rightarrow> jp_locals \<Rightarrow> error + jp_locals"
where
  "jp_loop one_gene two_genes have_trait [] st = Inr st"
| "jp_loop one_gene two_genes have_trait (e # es) st =
     (case person_step one_gene two_genes have_trait e st of
        Inl err \<Rightarrow> Inl err
      | Inr st' \<Rightarrow> jp_loop one_gene two_genes have_trait es st')"

definition jp_init :: jp_locals where
  "jp_init = \<lparr>from_mother = None, from_father = None, probabilites = []\<rparr>"

definition joint_probability ::
  "people \<Rightarrow> string set \<Rightarrow> string set \<Rightarrow> string set \<Rightarrow> error + real"
where
  "joint_probability people one_gene two_genes have_trait =
     (case jp_loop one_gene two_genes have_trait people jp_init of
        Inl err \<Rightarrow> Inl err
      | Inr st \<Rightarrow> Inr (foldl (\<lambda>join_prob prob. join_prob * prob) 1 (probabilites st)))"

text \<open>
  The transmission probability the evaluator assigns to a parent (lines 155 to 160 for the
  mother, 163 to 168 for the father, the same chain).
\<close>

definition transmission :: "string set \<Rightarrow> string set \<Rightarrow> string \<Rightarrow> real" where
  "transmission one_gene two_genes parent =
     (if parent \<in> one_gene then 0.5
      else if parent \<in> two_genes then 1 - PROBS_mutation
      else PROBS_mutation)"

section \<open>update and normalize\<close>

text \<open>
  The accumulator \<^verbatim>\<open>probabilities\<close>: for every person the dict
  \<^verbatim>\<open>{"gene": {2: _, 1: _, 0: _}, "trait": {True: _, False: _}}\<close>. The two inner dicts
  have fixed keys and are functions on them; only the keys 0, 1, 2 of \<open>p_gene\<close> are read
  or written.
\<close>

record marginal =
  p_gene :: "nat \<Rightarrow> real"
  p_trait :: "bool \<Rightarrow> real"

type_synonym probabilities = "(string \<times> marginal) list"

definition update_person ::
  "string set \<Rightarrow> string set \<Rightarrow> string set \<Rightarrow> real \<Rightarrow> string \<times> marginal \<Rightarrow> string \<times> marginal"
where
  "update_person one_gene two_genes have_trait p entry =
     (let person = fst entry;
          d = snd entry;
          d1 = (if person \<in> one_gene then d\<lparr>p_gene := (p_gene d)(1 := p_gene d 1 + p)\<rparr>
                else if person \<in> two_genes then d\<lparr>p_gene := (p_gene d)(2 := p_gene d 2 + p)\<rparr>
                else d\<lparr>p_gene := (p_gene d)(0 := p_gene d 0 + p)\<rparr>);
          d2 = (if person \<in> have_trait
                then d1\<lparr>p_trait := (p_trait d1)(True := p_trait d1 True + p)\<rparr>
                else if person \<notin> have_trait
                then d1\<lparr>p_trait := (p_trait d1)(False := p_trait d1 False + p)\<rparr>
                else d1)
      in (person, d2))"

definition update ::
  "probabilities \<Rightarrow> string set \<Rightarrow> string set \<Rightarrow> string set \<Rightarrow> real \<Rightarrow> probabilities"
where
  "update probabilities one_gene two_genes have_trait p =
     map (update_person one_gene two_genes have_trait p) probabilities"

text \<open>
  The body of the loop of \<^verbatim>\<open>normalize\<close> for one person. Python raises
  \<^verbatim>\<open>ZeroDivisionError\<close> on a division by zero, of floats as of ints.
\<close>

definition normalize_person :: "marginal \<Rightarrow> error + marginal" where
  "normalize_person d =
     (let trait_true = p_trait d True;
          trait_false = p_trait d False;
          summary = trait_false + trait_true
      in
      case (if summary \<noteq> 1 then
              if summary = 0 then Inl ZeroDivisionError
              else Inr (d\<lparr>p_trait := (p_trait d)
                     (True := p_trait d True / summary, False := p_trait d False / summary)\<rparr>)
            else Inr d) of
        Inl err \<Rightarrow> Inl err
      | Inr d1 \<Rightarrow>
          (let no_genes = p_gene d1 0;
               one_gene = p_gene d1 1;
               two_genes = p_gene d1 2;
               summary_genes = no_genes + one_gene + two_genes
           in
           if summary_genes \<noteq> 1 then
             if summary_genes = 0 then Inl ZeroDivisionError
             else Inr (d1\<lparr>p_gene := (p_gene d1)
                    (0 := p_gene d1 0 / summary_genes,
                     1 := p_gene d1 1 / summary_genes,
                     2 := p_gene d1 2 / summary_genes)\<rparr>)
           else Inr d1))"

fun normalize :: "probabilities \<Rightarrow> error + probabilities" where
  "normalize [] = Inr []"
| "normalize (entry # rest) =
     (case normalize_person (snd entry) of
        Inl err \<Rightarrow> Inl err
      | Inr d \<Rightarrow>
          (case normalize rest of
             Inl err \<Rightarrow> Inl err
           | Inr rest' \<Rightarrow> Inr ((fst entry, d) # rest')))"

section \<open>powerset and main\<close>

text \<open>
  \<^verbatim>\<open>itertools.combinations(s, r)\<close>: the r-element subsequences of \<open>s\<close>, those with the
  first element first.
\<close>

fun combinations :: "'a list \<Rightarrow> nat \<Rightarrow> 'a list list" where
  "combinations xs 0 = [[]]"
| "combinations [] (Suc r) = []"
| "combinations (x # xs) (Suc r) =
     map ((#) x) (combinations xs r) @ combinations xs (Suc r)"

text \<open>
  \<^verbatim>\<open>powerset\<close> receives a Python set and starts with \<^verbatim>\<open>s = list(s)\<close>; the argument
  here is that list, the elements of the set in the order Python iterates it.
\<close>

definition powerset :: "'a list \<Rightarrow> 'a set list" where
  "powerset s = map set (concat (map (combinations s) [0..<length s + 1]))"

text \<open>The evidence check of \<^verbatim>\<open>main\<close> (lines 68 to 72).\<close>

definition fails_evidence :: "people \<Rightarrow> string set \<Rightarrow> bool" where
  "fails_evidence people have_trait =
     list_ex (\<lambda>entry. trait (snd entry) \<noteq> None \<and>
                       trait (snd entry) \<noteq> Some (fst entry \<in> have_trait)) people"

text \<open>The initial accumulator (lines 48 to 61).\<close>

definition init_probabilities :: "people \<Rightarrow> probabilities" where
  "init_probabilities people =
     map (\<lambda>entry. (fst entry, \<lparr>p_gene = (\<lambda>g. 0), p_trait = (\<lambda>t. 0)\<rparr>)) people"

text \<open>
  The three nested loops of \<^verbatim>\<open>main\<close>, innermost first. \<open>names\<close> is
  \<^verbatim>\<open>set(people)\<close>, the keys of the dict; Python leaves the order in which a set is
  iterated open, and the model takes the keys in the order of the dict.
  \<^verbatim>\<open>names - one_gene\<close> keeps the names outside \<open>one_gene\<close>. An exception raised by
  \<^verbatim>\<open>joint_probability\<close> ends the run.
\<close>

fun two_genes_loop ::
  "people \<Rightarrow> string set \<Rightarrow> string set \<Rightarrow> string set list \<Rightarrow> probabilities \<Rightarrow> error + probabilities"
where
  "two_genes_loop people have_trait one_gene [] probabilities = Inr probabilities"
| "two_genes_loop people have_trait one_gene (two_genes # rest) probabilities =
     (case joint_probability people one_gene two_genes have_trait of
        Inl err \<Rightarrow> Inl err
      | Inr p \<Rightarrow>
          two_genes_loop people have_trait one_gene rest
            (update probabilities one_gene two_genes have_trait p))"

fun one_gene_loop ::
  "people \<Rightarrow> string list \<Rightarrow> string set \<Rightarrow> string set list \<Rightarrow> probabilities \<Rightarrow> error + probabilities"
where
  "one_gene_loop people names have_trait [] probabilities = Inr probabilities"
| "one_gene_loop people names have_trait (one_gene # rest) probabilities =
     (case two_genes_loop people have_trait one_gene
             (powerset (filter (\<lambda>person. person \<notin> one_gene) names)) probabilities of
        Inl err \<Rightarrow> Inl err
      | Inr probabilities' \<Rightarrow> one_gene_loop people names have_trait rest probabilities')"

fun have_trait_loop ::
  "people \<Rightarrow> string list \<Rightarrow> string set list \<Rightarrow> probabilities \<Rightarrow> error + probabilities"
where
  "have_trait_loop people names [] probabilities = Inr probabilities"
| "have_trait_loop people names (have_trait # rest) probabilities =
     (if fails_evidence people have_trait
      then have_trait_loop people names rest probabilities
      else
        (case one_gene_loop people names have_trait (powerset names) probabilities of
           Inl err \<Rightarrow> Inl err
         | Inr probabilities' \<Rightarrow> have_trait_loop people names rest probabilities'))"

text \<open>
  \<^verbatim>\<open>main\<close> from the loaded \<^verbatim>\<open>people\<close> to the normalized accumulator it prints.
\<close>

definition main :: "people \<Rightarrow> error + probabilities" where
  "main people =
     (let probabilities = init_probabilities people;
          names = map fst people
      in
      case have_trait_loop people names (powerset names) probabilities of
        Inl err \<Rightarrow> Inl err
      | Inr probabilities' \<Rightarrow> normalize probabilities')"

section \<open>The population invariant and the evaluator as the specification words it\<close>

text \<open>
  The invariant of the population model: every person has both parent references or
  neither.
\<close>

definition both_or_neither :: "people \<Rightarrow> bool" where
  "both_or_neither people =
     list_all (\<lambda>entry. (mother (snd entry) = None) = (father (snd entry) = None)) people"

text \<open>
  What one person appends to \<^verbatim>\<open>probabilites\<close> when the invariant holds: nothing for a
  person in both gene sets (the guard of line 147), one factor otherwise.
\<close>

definition contribution ::
  "string set \<Rightarrow> string set \<Rightarrow> string set \<Rightarrow> string \<times> person \<Rightarrow> real list" where
  "contribution one_gene two_genes have_trait entry =
     (if fst entry \<in> one_gene \<and> fst entry \<in> two_genes then []
      else
        [(case mother (snd entry) of
            None \<Rightarrow> PROBS_gene (person_genes_of one_gene two_genes (fst entry))
          | Some m \<Rightarrow>
              (case father (snd entry) of
                 None \<Rightarrow> PROBS_gene (person_genes_of one_gene two_genes (fst entry))
               | Some f \<Rightarrow>
                   gene_given_parents (person_genes_of one_gene two_genes (fst entry))
                     (transmission one_gene two_genes m)
                     (transmission one_gene two_genes f)))
         * PROBS_trait (person_genes_of one_gene two_genes (fst entry)) (fst entry \<in> have_trait)])"

text \<open>
  The generative model in the words of the specification: the Gene Prior Table, the Trait
  Emission Table, the transmission probability of a parent, the gene count a hypothesis
  gives a person, and the product over the population.
\<close>

definition spec_prior :: "nat \<Rightarrow> real" where
  "spec_prior g = (if g = 0 then 0.96 else if g = 1 then 0.03 else 0.01)"

definition spec_emission :: "nat \<Rightarrow> bool \<Rightarrow> real" where
  "spec_emission g t =
     (if g = 2 then (if t then 0.65 else 0.35)
      else if g = 1 then (if t then 0.56 else 0.44)
      else (if t then 0.01 else 0.99))"

definition spec_transmit :: "string set \<Rightarrow> string set \<Rightarrow> string \<Rightarrow> real" where
  "spec_transmit one_gene two_genes parent =
     (if parent \<in> one_gene then 0.5
      else if parent \<in> two_genes then 1 - 0.01
      else 0.01)"

definition spec_gene_count :: "string set \<Rightarrow> string set \<Rightarrow> string \<Rightarrow> nat" where
  "spec_gene_count one_gene two_genes person =
     (if person \<in> two_genes then 2 else if person \<in> one_gene then 1 else 0)"

definition spec_gene_prob :: "string set \<Rightarrow> string set \<Rightarrow> string \<times> person \<Rightarrow> real" where
  "spec_gene_prob one_gene two_genes entry =
     (let g = spec_gene_count one_gene two_genes (fst entry) in
      case (mother (snd entry), father (snd entry)) of
        (Some m, Some f) \<Rightarrow>
          (let pM = spec_transmit one_gene two_genes m;
               pF = spec_transmit one_gene two_genes f
           in if g = 2 then pM * pF
              else if g = 1 then pM * (1 - pF) + (1 - pM) * pF
              else (1 - pM) * (1 - pF))
      | _ \<Rightarrow> spec_prior g)"

definition spec_joint ::
  "people \<Rightarrow> string set \<Rightarrow> string set \<Rightarrow> string set \<Rightarrow> real" where
  "spec_joint people one_gene two_genes have_trait =
     (\<Prod>entry\<leftarrow>people.
        spec_gene_prob one_gene two_genes entry
        * spec_emission (spec_gene_count one_gene two_genes (fst entry)) (fst entry \<in> have_trait))"


section \<open>Example populations\<close>

definition family :: people where
  "family =
     [(''Lily'', \<lparr>name = ''Lily'', mother = None, father = None, trait = Some False\<rparr>),
      (''James'', \<lparr>name = ''James'', mother = None, father = None, trait = Some True\<rparr>),
      (''Harry'', \<lparr>name = ''Harry'', mother = Some ''Lily'', father = Some ''James'',
                   trait = None\<rparr>)]"


section \<open>Masses of the accumulator\<close>

text \<open>The total mass of a person's gene-count dict and of the trait dict.\<close>

definition gene_mass :: "marginal \<Rightarrow> real" where
  "gene_mass d = p_gene d 0 + p_gene d 1 + p_gene d 2"

definition trait_mass :: "marginal \<Rightarrow> real" where
  "trait_mass d = p_trait d True + p_trait d False"

text \<open>A sequence of calls of \<^verbatim>\<open>update\<close>, each with its hypothesis and its \<open>p\<close>.\<close>

definition update_all ::
  "probabilities \<Rightarrow> (string set \<times> string set \<times> string set \<times> real) list \<Rightarrow> probabilities" where
  "update_all probabilities calls =
     foldl (\<lambda>pr call. case call of (one_gene, two_genes, have_trait, p) \<Rightarrow>
              update pr one_gene two_genes have_trait p) probabilities calls"

definition balanced :: "probabilities \<Rightarrow> bool" where
  "balanced probabilities = list_all (\<lambda>entry. gene_mass (snd entry) = trait_mass (snd entry)) probabilities"

text \<open>
  \<open>d'\<close> is \<open>d\<close> with every gene value divided by the gene mass of \<open>d\<close> and every trait
  value divided by its trait mass.
\<close>

definition normalized_from :: "marginal \<Rightarrow> marginal \<Rightarrow> bool" where
  "normalized_from d d' =
     (p_gene d' 0 = p_gene d 0 / gene_mass d \<and>
      p_gene d' 1 = p_gene d 1 / gene_mass d \<and>
      p_gene d' 2 = p_gene d 2 / gene_mass d \<and>
      p_trait d' True = p_trait d True / trait_mass d \<and>
      p_trait d' False = p_trait d False / trait_mass d)"

definition calls_example :: "(string set \<times> string set \<times> string set \<times> real) list" where
  "calls_example =
     [({''Harry''}, {''James''}, {''James''}, 0.25),
      ({}, {''Lily''}, {''Lily'', ''Harry''}, 0.5)]"

definition unnormalized_example :: probabilities where
  "unnormalized_example =
     [(''Harry'', \<lparr>p_gene = (\<lambda>g. if g = 1 then 2 else 1), p_trait = (\<lambda>t. if t then 1 else 3)\<rparr>)]"

text \<open>A population of one person with no parents and no observed trait.\<close>

definition single :: "string \<Rightarrow> people" where
  "single a = [(a, \<lparr>name = a, mother = None, father = None, trait = None\<rparr>)]"

section \<open>The hypotheses the driver evaluates\<close>

text \<open>
  The pairs \<open>(one_gene, two_genes)\<close> that the two inner loops of \<^verbatim>\<open>main\<close> go through, in
  order.
\<close>

definition gene_pairs :: "string list \<Rightarrow> (string set \<times> string set) list" where
  "gene_pairs names =
     concat (map (\<lambda>one_gene. map (\<lambda>two_genes. (one_gene, two_genes))
                    (powerset (filter (\<lambda>person. person \<notin> one_gene) names)))
               (powerset names))"

text \<open>
  The hypotheses \<open>(one_gene, two_genes, have_trait)\<close> that reach \<^verbatim>\<open>joint_probability\<close> and
  \<^verbatim>\<open>update\<close>, in order: a \<open>have_trait\<close> that fails the evidence check contributes none.
\<close>

definition evaluated :: "people \<Rightarrow> (string set \<times> string set \<times> string set) list" where
  "evaluated people =
     concat (map (\<lambda>have_trait.
                    if fails_evidence people have_trait then []
                    else map (\<lambda>pair. (fst pair, snd pair, have_trait)) (gene_pairs (map fst people)))
               (powerset (map fst people)))"

text \<open>One loop over a list of hypotheses: lines 81 and 82 for each of them.\<close>

fun accumulate ::
  "people \<Rightarrow> (string set \<times> string set \<times> string set) list \<Rightarrow> probabilities \<Rightarrow> error + probabilities"
where
  "accumulate people [] probabilities = Inr probabilities"
| "accumulate people (h # rest) probabilities =
     (case joint_probability people (fst h) (fst (snd h)) (snd (snd h)) of
        Inl err \<Rightarrow> Inl err
      | Inr p \<Rightarrow>
          accumulate people rest (update probabilities (fst h) (fst (snd h)) (snd (snd h)) p))"

text \<open>
  The accumulator after \<^verbatim>\<open>update\<close> has been called once for every hypothesis of a
  list, in order, each time with the joint probability the specification gives it.
\<close>

definition accumulated ::
  "people \<Rightarrow> (string set \<times> string set \<times> string set) list \<Rightarrow> probabilities \<Rightarrow> probabilities"
where
  "accumulated people hs probabilities =
     foldl (\<lambda>pr h. update pr (fst h) (fst (snd h)) (snd (snd h))
                      (spec_joint people (fst h) (fst (snd h)) (snd (snd h))))
       probabilities hs"

text \<open>The pairs of disjoint subsets of a set.\<close>

definition disjoint_pairs :: "'a set \<Rightarrow> ('a set \<times> 'a set) set" where
  "disjoint_pairs N = {(A, B). A \<subseteq> N \<and> B \<subseteq> N \<and> A \<inter> B = {}}"

text \<open>One person with no parents and an observed trait.\<close>

definition observed_single :: people where
  "observed_single =
     [(''Harry'', \<lparr>name = ''Harry'', mother = None, father = None, trait = Some True\<rparr>)]"

text \<open>A population that breaks the invariant in its first person.\<close>

definition mother_only_first :: people where
  "mother_only_first =
     [(''Rose'', \<lparr>name = ''Rose'', mother = Some ''Lily'', father = None, trait = None\<rparr>),
      (''Lily'', \<lparr>name = ''Lily'', mother = None, father = None, trait = None\<rparr>)]"

section \<open>Properties\<close>

text \<open>
  C6. Whatever the gene counts the hypothesis gives to the two parents, the three
  probabilities the evaluator computes for the child having two, one and zero copies
  add up to exactly 1.
\<close>

theorem C6_child_terms_sum_to_one:
  "gene_given_parents 2 (transmission one_gene two_genes m) (transmission one_gene two_genes f)
   + gene_given_parents 1 (transmission one_gene two_genes m) (transmission one_gene two_genes f)
   + gene_given_parents 0 (transmission one_gene two_genes m) (transmission one_gene two_genes f)
   = 1"
  by (simp add: gene_given_parents_def algebra_simps)

subsection \<open>The evaluator under the population invariant\<close>

lemma person_step_paired:
  assumes "(mother (snd entry) = None) = (father (snd entry) = None)"
  shows "\<exists>st'. person_step one_gene two_genes have_trait entry st = Inr st' \<and>
           probabilites st' = probabilites st @ contribution one_gene two_genes have_trait entry"
  using assms
  by (cases "mother (snd entry)"; cases "father (snd entry)")
     (auto simp: person_step_def contribution_def transmission_def Let_def)

text \<open>
  For a person with both parents the step assigns both locals by the chain \<open>transmission\<close>
  and appends the factor built from them.
\<close>

lemma person_step_two_parents:
  assumes "mother (snd entry) = Some m" and "father (snd entry) = Some f"
    and "fst entry \<notin> one_gene \<or> fst entry \<notin> two_genes"
  shows "person_step one_gene two_genes have_trait entry st =
     Inr (st\<lparr>from_mother := Some (transmission one_gene two_genes m),
             from_father := Some (transmission one_gene two_genes f),
             probabilites := probabilites st @
               [gene_given_parents (person_genes_of one_gene two_genes (fst entry))
                  (transmission one_gene two_genes m) (transmission one_gene two_genes f)
                * PROBS_trait (person_genes_of one_gene two_genes (fst entry))
                    (fst entry \<in> have_trait)]\<rparr>)"
  using assms by (simp add: person_step_def transmission_def Let_def)

lemma jp_loop_paired:
  "both_or_neither people \<Longrightarrow>
   \<exists>st'. jp_loop one_gene two_genes have_trait people st = Inr st' \<and>
     probabilites st' =
       probabilites st @ concat (map (contribution one_gene two_genes have_trait) people)"
proof (induction people arbitrary: st)
  case Nil
  then show ?case by simp
next
  case (Cons e es)
  from Cons.prems have e: "(mother (snd e) = None) = (father (snd e) = None)"
    and es: "both_or_neither es"
    by (simp_all add: both_or_neither_def)
  from person_step_paired [OF e] obtain st1 where
    s1: "person_step one_gene two_genes have_trait e st = Inr st1"
    and p1: "probabilites st1 = probabilites st @ contribution one_gene two_genes have_trait e"
    by blast
  from Cons.IH [OF es, of st1] obtain st2 where
    s2: "jp_loop one_gene two_genes have_trait es st1 = Inr st2"
    and p2: "probabilites st2 =
      probabilites st1 @ concat (map (contribution one_gene two_genes have_trait) es)"
    by blast
  show ?case using s1 s2 p1 p2 by simp
qed

lemma foldl_times:
  "foldl (\<lambda>join_prob prob. join_prob * prob) a xs = a * prod_list (xs :: real list)"
  by (induction xs arbitrary: a) (simp_all add: mult.assoc)

lemma joint_probability_paired:
  "both_or_neither people \<Longrightarrow>
   joint_probability people one_gene two_genes have_trait =
     Inr (prod_list (concat (map (contribution one_gene two_genes have_trait) people)))"
  using jp_loop_paired [of people one_gene two_genes have_trait jp_init]
  by (auto simp: joint_probability_def foldl_times jp_init_def)

lemma contribution_spec:
  assumes "one_gene \<inter> two_genes = {}"
    and "(mother (snd entry) = None) = (father (snd entry) = None)"
  shows "contribution one_gene two_genes have_trait entry =
     [spec_gene_prob one_gene two_genes entry
        * spec_emission (spec_gene_count one_gene two_genes (fst entry)) (fst entry \<in> have_trait)]"
proof -
  have nb: "\<not> (fst entry \<in> one_gene \<and> fst entry \<in> two_genes)"
    using assms(1) by blast
  show ?thesis
    using nb assms(2)
    by (cases "mother (snd entry)"; cases "father (snd entry)")
       (simp_all add: contribution_def spec_gene_prob_def spec_gene_count_def
          person_genes_of_def spec_prior_def PROBS_gene_def spec_emission_def PROBS_trait_def
          gene_given_parents_def transmission_def spec_transmit_def PROBS_mutation_def
          Let_def algebra_simps)
qed

lemma concat_contribution_spec:
  assumes "one_gene \<inter> two_genes = {}"
  shows "both_or_neither people \<Longrightarrow>
    concat (map (contribution one_gene two_genes have_trait) people) =
    map (\<lambda>entry. spec_gene_prob one_gene two_genes entry
        * spec_emission (spec_gene_count one_gene two_genes (fst entry)) (fst entry \<in> have_trait))
      people"
  by (induction people) (simp_all add: both_or_neither_def contribution_spec [OF assms])

lemma family_paired: "both_or_neither family"
  by (simp add: family_def both_or_neither_def)

lemma spec_joint_family:
  "spec_joint family {''Harry''} {''James''} {''James''} = 0.0026643247488"
  by (simp add: spec_joint_def family_def spec_gene_prob_def spec_gene_count_def
        spec_transmit_def spec_prior_def spec_emission_def)


text \<open>
  C1. In a population where every person has both parents or neither, and for disjoint
  \<open>one_gene\<close> and \<open>two_genes\<close>, \<^verbatim>\<open>joint_probability\<close> returns the product over all people
  of P(gene = g) times P(trait = t | gene = g), with g and t read from the hypothesis, the
  prior for a person without parents and the transmission formula for a person with
  parents.
\<close>

theorem C1_joint_probability_product:
  assumes "both_or_neither people" and "one_gene \<inter> two_genes = {}"
  shows "joint_probability people one_gene two_genes have_trait =
           Inr (spec_joint people one_gene two_genes have_trait)"
  using assms
  by (simp add: joint_probability_paired concat_contribution_spec spec_joint_def)

theorem C1_witness:
  "both_or_neither family \<and> {''Harry''} \<inter> {''James''} = ({} :: string set) \<and>
   joint_probability family {''Harry''} {''James''} {''James''} = Inr 0.0026643247488"
proof -
  have d: "{''Harry''} \<inter> {''James''} = ({} :: string set)" by simp
  have "joint_probability family {''Harry''} {''James''} {''James''} =
          Inr (spec_joint family {''Harry''} {''James''} {''James''})"
    by (rule C1_joint_probability_product [OF family_paired d])
  then show ?thesis using family_paired d by (simp add: spec_joint_family)
qed

text \<open>
  A person with exactly one parent reads a transmission probability that was never
  assigned: the evaluator raises.
\<close>

lemma single_parent_unbound:
  "joint_probability
     [(''Harry'', \<lparr>name = ''Harry'', mother = Some ''Lily'', father = None, trait = None\<rparr>)]
     {} {} {} = Inl UnboundLocalError"
  by (simp add: joint_probability_def jp_init_def person_step_def Let_def)

text \<open>
  C9. In a population where every person has both parents or neither,
  \<^verbatim>\<open>joint_probability\<close> returns a number for every hypothesis, and the step of every
  person succeeds from any state of the locals: reading an unassigned \<^verbatim>\<open>from_mother\<close> or
  \<^verbatim>\<open>from_father\<close> cannot happen.
\<close>

theorem C9_joint_probability_total:
  assumes "both_or_neither people"
  shows "(\<exists>p. joint_probability people one_gene two_genes have_trait = Inr p) \<and>
         (\<forall>entry \<in> set people. \<forall>st.
            \<exists>st'. person_step one_gene two_genes have_trait entry st = Inr st')"
proof
  show "\<exists>p. joint_probability people one_gene two_genes have_trait = Inr p"
    using assms by (simp add: joint_probability_paired)
next
  show "\<forall>entry \<in> set people. \<forall>st.
          \<exists>st'. person_step one_gene two_genes have_trait entry st = Inr st'"
  proof (intro ballI allI)
    fix entry st
    assume "entry \<in> set people"
    with assms have "(mother (snd entry) = None) = (father (snd entry) = None)"
      by (simp add: both_or_neither_def list_all_iff)
    from person_step_paired [OF this]
    show "\<exists>st'. person_step one_gene two_genes have_trait entry st = Inr st'"
      by blast
  qed
qed

theorem C9_witness:
  "both_or_neither family \<and>
   (\<exists>p. joint_probability family {''Harry''} {''James''} {''James''} = Inr p)"
  using C9_joint_probability_total [OF family_paired, of "{''Harry''}" "{''James''}" "{''James''}"]
    family_paired by blast

subsection \<open>Exchanging mother and father\<close>















subsection \<open>update\<close>

lemma update_person_buckets:
  "fst (update_person one_gene two_genes have_trait p entry) = fst entry \<and>
   (\<exists>g \<in> {0, 1, 2}. p_gene (snd (update_person one_gene two_genes have_trait p entry)) =
        (p_gene (snd entry))(g := p_gene (snd entry) g + p)) \<and>
   (\<exists>t. p_trait (snd (update_person one_gene two_genes have_trait p entry)) =
        (p_trait (snd entry))(t := p_trait (snd entry) t + p))"
  by (auto simp: update_person_def Let_def)

lemma update_person_mass:
  "gene_mass (snd (update_person one_gene two_genes have_trait p entry)) = gene_mass (snd entry) + p"
  "trait_mass (snd (update_person one_gene two_genes have_trait p entry)) = trait_mass (snd entry) + p"
  by (auto simp: update_person_def Let_def gene_mass_def trait_mass_def)

lemma balanced_init: "balanced (init_probabilities people)"
  by (simp add: balanced_def init_probabilities_def list_all_iff gene_mass_def trait_mass_def)

lemma balanced_update:
  "balanced probabilities \<Longrightarrow> balanced (update probabilities one_gene two_genes have_trait p)"
  by (simp add: balanced_def update_def list_all_iff update_person_mass)

lemma balanced_update_all:
  "balanced probabilities \<Longrightarrow> balanced (update_all probabilities calls)"
proof (induction calls arbitrary: probabilities)
  case Nil
  then show ?case by (simp add: update_all_def)
next
  case (Cons c cs)
  obtain og tg ht p where c: "c = (og, tg, ht, p)" by (cases c)
  have "balanced (update probabilities og tg ht p)"
    by (rule balanced_update [OF Cons.prems])
  from Cons.IH [OF this] show ?case
    by (simp add: update_all_def c)
qed

text \<open>
  C10. After initialization and any sequence of calls of \<^verbatim>\<open>update\<close> (disjoint gene sets
  or not), every person's gene masses add up to the same total as the trait masses. One
  call keeps the persons and, for each of them, adds \<open>p\<close> to one gene bucket and to one
  trait bucket and leaves every other bucket as it was.
\<close>

theorem C10_masses_agree:
  "(\<forall>entry \<in> set (update_all (init_probabilities people) calls).
      p_gene (snd entry) 0 + p_gene (snd entry) 1 + p_gene (snd entry) 2 =
      p_trait (snd entry) True + p_trait (snd entry) False)
   \<and> length (update probabilities one_gene two_genes have_trait p) = length probabilities
   \<and> (\<forall>i < length probabilities.
        fst (update probabilities one_gene two_genes have_trait p ! i) = fst (probabilities ! i) \<and>
        (\<exists>g \<in> {0, 1, 2}.
           p_gene (snd (update probabilities one_gene two_genes have_trait p ! i)) =
             (p_gene (snd (probabilities ! i)))(g := p_gene (snd (probabilities ! i)) g + p)) \<and>
        (\<exists>t. p_trait (snd (update probabilities one_gene two_genes have_trait p ! i)) =
             (p_trait (snd (probabilities ! i)))(t := p_trait (snd (probabilities ! i)) t + p)))"
proof (intro conjI)
  have "balanced (update_all (init_probabilities people) calls)"
    by (rule balanced_update_all [OF balanced_init])
  then show "\<forall>entry \<in> set (update_all (init_probabilities people) calls).
      p_gene (snd entry) 0 + p_gene (snd entry) 1 + p_gene (snd entry) 2 =
      p_trait (snd entry) True + p_trait (snd entry) False"
    by (simp add: balanced_def list_all_iff gene_mass_def trait_mass_def)
next
  show "length (update probabilities one_gene two_genes have_trait p) = length probabilities"
    by (simp add: update_def)
next
  show "\<forall>i < length probabilities.
        fst (update probabilities one_gene two_genes have_trait p ! i) = fst (probabilities ! i) \<and>
        (\<exists>g \<in> {0, 1, 2}.
           p_gene (snd (update probabilities one_gene two_genes have_trait p ! i)) =
             (p_gene (snd (probabilities ! i)))(g := p_gene (snd (probabilities ! i)) g + p)) \<and>
        (\<exists>t. p_trait (snd (update probabilities one_gene two_genes have_trait p ! i)) =
             (p_trait (snd (probabilities ! i)))(t := p_trait (snd (probabilities ! i)) t + p))"
    using update_person_buckets by (simp add: update_def)
qed

lemma update_all_example:
  "map fst (update_all (init_probabilities family) calls_example) = [''Lily'', ''James'', ''Harry'']"
  by (simp add: update_all_def calls_example_def init_probabilities_def family_def update_def
        update_person_def Let_def)

lemma harry_mass:
  "p_gene (snd (update_all (init_probabilities family) calls_example ! 2)) 0 = 0.5 \<and>
   p_gene (snd (update_all (init_probabilities family) calls_example ! 2)) 1 = 0.25 \<and>
   p_trait (snd (update_all (init_probabilities family) calls_example ! 2)) True = 0.5"
  by (simp add: update_all_def calls_example_def init_probabilities_def family_def update_def
        update_person_def Let_def)

theorem C10_witness:
  "p_gene (snd (update_all (init_probabilities family) calls_example ! 2)) 0
   + p_gene (snd (update_all (init_probabilities family) calls_example ! 2)) 1
   + p_gene (snd (update_all (init_probabilities family) calls_example ! 2)) 2
   = p_trait (snd (update_all (init_probabilities family) calls_example ! 2)) True
   + p_trait (snd (update_all (init_probabilities family) calls_example ! 2)) False
   \<and> p_gene (snd (update_all (init_probabilities family) calls_example ! 2)) 1 = 0.25"
proof -
  have "length (update_all (init_probabilities family) calls_example) = 3"
    using arg_cong [OF update_all_example, of length] by simp
  then have "update_all (init_probabilities family) calls_example ! 2
      \<in> set (update_all (init_probabilities family) calls_example)"
    by simp
  with C10_masses_agree [of family calls_example] harry_mass show ?thesis
    by blast
qed

subsection \<open>normalize\<close>

lemma normalize_person_positive:
  assumes "0 < gene_mass d" and "0 < trait_mass d"
  shows "\<exists>d'. normalize_person d = Inr d' \<and> normalized_from d d'"
  using assms
  by (auto simp: normalize_person_def Let_def normalized_from_def gene_mass_def trait_mass_def
        add.commute)

lemma normalized_from_sums:
  assumes "0 < gene_mass d" and "0 < trait_mass d" and "normalized_from d d'"
  shows "gene_mass d' = 1" and "trait_mass d' = 1"
proof -
  have "gene_mass d' = gene_mass d / gene_mass d"
    using assms(3) unfolding normalized_from_def
    by (simp add: gene_mass_def [of d'] add_divide_distrib [symmetric]) (simp add: gene_mass_def)
  then show "gene_mass d' = 1" using assms(1) by simp
  have "trait_mass d' = trait_mass d / trait_mass d"
    using assms(3) unfolding normalized_from_def
    by (simp add: trait_mass_def [of d'] add_divide_distrib [symmetric]) (simp add: trait_mass_def)
  then show "trait_mass d' = 1" using assms(2) by simp
qed

lemma normalize_positive:
  "list_all (\<lambda>entry. 0 < gene_mass (snd entry) \<and> 0 < trait_mass (snd entry)) probabilities \<Longrightarrow>
   \<exists>probabilities'. normalize probabilities = Inr probabilities' \<and>
      map fst probabilities' = map fst probabilities \<and>
      list_all2 normalized_from (map snd probabilities) (map snd probabilities')"
proof (induction probabilities)
  case Nil
  then show ?case by simp
next
  case (Cons e es)
  from Cons.prems have g: "0 < gene_mass (snd e)" and t: "0 < trait_mass (snd e)"
    and es: "list_all (\<lambda>entry. 0 < gene_mass (snd entry) \<and> 0 < trait_mass (snd entry)) es"
    by simp_all
  from normalize_person_positive [OF g t] obtain d' where
    d': "normalize_person (snd e) = Inr d'" "normalized_from (snd e) d'" by blast
  from Cons.IH [OF es] obtain es' where
    es': "normalize es = Inr es'" "map fst es' = map fst es"
      "list_all2 normalized_from (map snd es) (map snd es')" by blast
  show ?case using d' es' by simp
qed

lemma normalized_from_ratio:
  assumes "normalized_from d d'"
  shows "\<forall>g \<in> {0, 1, 2}. \<forall>h \<in> {0, 1, 2}. p_gene d' g * p_gene d h = p_gene d' h * p_gene d g"
    and "\<forall>t u. p_trait d' t * p_trait d u = p_trait d' u * p_trait d t"
proof -
  show "\<forall>g \<in> {0, 1, 2}. \<forall>h \<in> {0, 1, 2}. p_gene d' g * p_gene d h = p_gene d' h * p_gene d g"
    using assms by (auto simp: normalized_from_def)
  have "p_trait d' t = p_trait d t / trait_mass d" for t
    using assms by (cases t) (simp_all add: normalized_from_def)
  then show "\<forall>t u. p_trait d' t * p_trait d u = p_trait d' u * p_trait d t"
    by simp
qed

text \<open>
  C4. When every person's gene masses and trait masses have a strictly positive sum,
  \<^verbatim>\<open>normalize\<close> returns, and in its result every person's gene distribution over 0, 1, 2
  and trait distribution over true, false each sum to 1; every value is the old value
  divided by the old sum, so the ratios within a distribution are those from before.
\<close>

theorem C4_normalize_sums_to_one:
  assumes "\<forall>entry \<in> set probabilities.
             0 < gene_mass (snd entry) \<and> 0 < trait_mass (snd entry)"
  shows "\<exists>probabilities'.
           normalize probabilities = Inr probabilities' \<and>
           map fst probabilities' = map fst probabilities \<and>
           (\<forall>i < length probabilities.
              gene_mass (snd (probabilities' ! i)) = 1 \<and>
              trait_mass (snd (probabilities' ! i)) = 1 \<and>
              normalized_from (snd (probabilities ! i)) (snd (probabilities' ! i)) \<and>
              (\<forall>g \<in> {0, 1, 2}. \<forall>h \<in> {0, 1, 2}.
                 p_gene (snd (probabilities' ! i)) g * p_gene (snd (probabilities ! i)) h =
                 p_gene (snd (probabilities' ! i)) h * p_gene (snd (probabilities ! i)) g) \<and>
              (\<forall>t u.
                 p_trait (snd (probabilities' ! i)) t * p_trait (snd (probabilities ! i)) u =
                 p_trait (snd (probabilities' ! i)) u * p_trait (snd (probabilities ! i)) t))"
proof -
  from assms have
    "list_all (\<lambda>entry. 0 < gene_mass (snd entry) \<and> 0 < trait_mass (snd entry)) probabilities"
    by (simp add: list_all_iff)
  from normalize_positive [OF this] obtain probabilities' where
    n: "normalize probabilities = Inr probabilities'"
    and k: "map fst probabilities' = map fst probabilities"
    and r: "list_all2 normalized_from (map snd probabilities) (map snd probabilities')"
    by blast
  have len: "length probabilities' = length probabilities"
    using arg_cong [OF k, of length] by simp
  have "gene_mass (snd (probabilities' ! i)) = 1 \<and>
        trait_mass (snd (probabilities' ! i)) = 1 \<and>
        normalized_from (snd (probabilities ! i)) (snd (probabilities' ! i)) \<and>
        (\<forall>g \<in> {0, 1, 2}. \<forall>h \<in> {0, 1, 2}.
           p_gene (snd (probabilities' ! i)) g * p_gene (snd (probabilities ! i)) h =
           p_gene (snd (probabilities' ! i)) h * p_gene (snd (probabilities ! i)) g) \<and>
        (\<forall>t u.
           p_trait (snd (probabilities' ! i)) t * p_trait (snd (probabilities ! i)) u =
           p_trait (snd (probabilities' ! i)) u * p_trait (snd (probabilities ! i)) t)"
    if i: "i < length probabilities" for i
  proof -
    from r i len have nf: "normalized_from (snd (probabilities ! i)) (snd (probabilities' ! i))"
      by (auto simp: list_all2_conv_all_nth)
    from i assms have pos: "0 < gene_mass (snd (probabilities ! i))"
      "0 < trait_mass (snd (probabilities ! i))"
      by simp_all
    show ?thesis
      using nf normalized_from_sums [OF pos nf] normalized_from_ratio [OF nf] by blast
  qed
  with n k show ?thesis by blast
qed

theorem C4_witness:
  "0 < gene_mass (snd (unnormalized_example ! 0)) \<and>
   0 < trait_mass (snd (unnormalized_example ! 0)) \<and>
   (\<exists>probabilities'.
      normalize unnormalized_example = Inr probabilities' \<and>
      gene_mass (snd (probabilities' ! 0)) = 1 \<and>
      trait_mass (snd (probabilities' ! 0)) = 1 \<and>
      p_gene (snd (probabilities' ! 0)) 1 = 1 / 2 \<and>
      p_trait (snd (probabilities' ! 0)) True = 1 / 4)"
proof -
  have pos: "\<forall>entry \<in> set unnormalized_example.
             0 < gene_mass (snd entry) \<and> 0 < trait_mass (snd entry)"
    by (simp add: unnormalized_example_def gene_mass_def trait_mass_def)
  have m: "gene_mass (snd (unnormalized_example ! 0)) = 4"
    "trait_mass (snd (unnormalized_example ! 0)) = 4"
    "p_gene (snd (unnormalized_example ! 0)) 1 = 2"
    "p_trait (snd (unnormalized_example ! 0)) True = 1"
    by (simp_all add: unnormalized_example_def gene_mass_def trait_mass_def)
  have l: "0 < length unnormalized_example"
    by (simp add: unnormalized_example_def)
  from C4_normalize_sums_to_one [OF pos] obtain probabilities' where
    "normalize unnormalized_example = Inr probabilities'"
    "\<forall>i < length unnormalized_example.
        gene_mass (snd (probabilities' ! i)) = 1 \<and>
        trait_mass (snd (probabilities' ! i)) = 1 \<and>
        normalized_from (snd (unnormalized_example ! i)) (snd (probabilities' ! i))"
    by blast
  with l have "normalize unnormalized_example = Inr probabilities'"
    "gene_mass (snd (probabilities' ! 0)) = 1"
    "trait_mass (snd (probabilities' ! 0)) = 1"
    "normalized_from (snd (unnormalized_example ! 0)) (snd (probabilities' ! 0))"
    by blast+
  then show ?thesis using m by (auto simp: normalized_from_def)
qed

lemma normalize_person_zero:
  assumes "gene_mass d = 0 \<or> trait_mass d = 0"
  shows "normalize_person d = Inl ZeroDivisionError"
  using assms
  by (auto simp: normalize_person_def Let_def gene_mass_def trait_mass_def add.commute)

lemma normalize_person_error:
  "normalize_person d = Inl err \<Longrightarrow> err = ZeroDivisionError"
  by (auto simp: normalize_person_def Let_def split: if_splits)

text \<open>
  C5. When some person's trait masses or gene masses sum to exactly zero,
  \<^verbatim>\<open>normalize\<close> does not return a distribution: the division raises
  \<^verbatim>\<open>ZeroDivisionError\<close>.
\<close>

theorem C5_zero_mass_raises:
  assumes "\<exists>entry \<in> set probabilities.
             trait_mass (snd entry) = 0 \<or> gene_mass (snd entry) = 0"
  shows "normalize probabilities = Inl ZeroDivisionError"
  using assms
proof (induction probabilities)
  case Nil
  then show ?case by simp
next
  case (Cons e es)
  show ?case
  proof (cases "gene_mass (snd e) = 0 \<or> trait_mass (snd e) = 0")
    case True
    then show ?thesis by (simp add: normalize_person_zero)
  next
    case False
    with Cons.prems have "\<exists>entry \<in> set es.
             trait_mass (snd entry) = 0 \<or> gene_mass (snd entry) = 0"
      by auto
    from Cons.IH [OF this] show ?thesis
      by (auto split: sum.splits dest: normalize_person_error)
  qed
qed

theorem C5_witness:
  "trait_mass (snd (init_probabilities family ! 0)) = 0 \<and>
   normalize (init_probabilities family) = Inl ZeroDivisionError"
proof -
  have z: "trait_mass (snd (init_probabilities family ! 0)) = 0"
    by (simp add: init_probabilities_def family_def trait_mass_def)
  have "init_probabilities family ! 0 \<in> set (init_probabilities family)"
    by (simp add: init_probabilities_def family_def)
  with z have "\<exists>entry \<in> set (init_probabilities family).
             trait_mass (snd entry) = 0 \<or> gene_mass (snd entry) = 0"
    by blast
  from C5_zero_mass_raises [OF this] z show ?thesis by simp
qed

subsection \<open>The driver\<close>

lemma powerset_Nil: "powerset [] = [{}]"
  by (simp add: powerset_def)

lemma powerset_single: "powerset [a] = [{}, {a}]"
  by (simp add: powerset_def upt_rec [of 0] upt_rec [of 1] upt_rec [of "Suc 0"] upt_rec [of 2])

lemma jp_single:
  "joint_probability (single a) one_gene two_genes have_trait =
     Inr (if a \<in> one_gene \<and> a \<in> two_genes then 1
          else PROBS_gene (person_genes_of one_gene two_genes a)
               * PROBS_trait (person_genes_of one_gene two_genes a) (a \<in> have_trait))"
  by (simp add: joint_probability_def single_def jp_init_def person_step_def Let_def)

text \<open>
  C7. For one person with no parents and no observed trait the run returns the gene
  distribution 0.96, 0.03, 0.01 for 0, 1, 2 copies, and for each trait value the sum over
  the gene counts of prior times emission.
\<close>

theorem C7_single_person:
  "\<exists>d. main (single a) = Inr [(a, d)] \<and>
       p_gene d 0 = 0.96 \<and> p_gene d 1 = 0.03 \<and> p_gene d 2 = 0.01 \<and>
       p_trait d True = (\<Sum>g \<in> {0, 1, 2}. spec_prior g * spec_emission g True) \<and>
       p_trait d False = (\<Sum>g \<in> {0, 1, 2}. spec_prior g * spec_emission g False)"
  by (simp add: main_def Let_def powerset_single powerset_Nil fails_evidence_def
        init_probabilities_def jp_single [unfolded single_def] single_def person_genes_of_def
        PROBS_gene_def PROBS_trait_def update_def update_person_def normalize_person_def
        spec_prior_def spec_emission_def)

theorem C7_witness:
  "\<exists>d. main (single ''Harry'') = Inr [(''Harry'', d)] \<and>
       p_gene d 0 = 0.96 \<and> p_gene d 1 = 0.03 \<and> p_gene d 2 = 0.01 \<and>
       p_trait d True = 0.0329 \<and> p_trait d False = 0.9671"
  using C7_single_person [of "''Harry''"]
  by (simp add: spec_prior_def spec_emission_def)

lemma known_mismatch:
  "(t \<noteq> None \<and> t \<noteq> Some b) = (\<exists>observed. t = Some observed \<and> observed \<noteq> b)"
  by (cases t) auto

text \<open>
  C3. The evidence check fails exactly when some person has an observed trait that differs
  from the person's membership in \<open>have_trait\<close>. A failing \<open>have_trait\<close> is skipped with
  the accumulator untouched; any other runs the two gene loops. The check reads the
  population and \<open>have_trait\<close> and nothing else.
\<close>

theorem C3_evidence_filter:
  "(fails_evidence people have_trait \<longleftrightarrow>
      (\<exists>entry \<in> set people. \<exists>observed.
          trait (snd entry) = Some observed \<and> observed \<noteq> (fst entry \<in> have_trait)))
   \<and> (fails_evidence people have_trait \<longrightarrow>
        have_trait_loop people names (have_trait # rest) probabilities =
        have_trait_loop people names rest probabilities)
   \<and> (\<not> fails_evidence people have_trait \<longrightarrow>
        have_trait_loop people names (have_trait # rest) probabilities =
        (case one_gene_loop people names have_trait (powerset names) probabilities of
           Inl err \<Rightarrow> Inl err
         | Inr probabilities' \<Rightarrow> have_trait_loop people names rest probabilities'))"
proof (intro conjI)
  show "fails_evidence people have_trait \<longleftrightarrow>
      (\<exists>entry \<in> set people. \<exists>observed.
          trait (snd entry) = Some observed \<and> observed \<noteq> (fst entry \<in> have_trait))"
    unfolding fails_evidence_def list_ex_iff known_mismatch ..
qed simp_all

theorem C3_witness:
  "fails_evidence family {''Lily''} \<and>
   have_trait_loop family (map fst family) [{''Lily''}] (init_probabilities family) =
     Inr (init_probabilities family) \<and>
   \<not> fails_evidence family {''James'', ''Harry''} \<and>
   have_trait_loop family (map fst family) [{''James'', ''Harry''}] (init_probabilities family) =
     one_gene_loop family (map fst family) {''James'', ''Harry''} (powerset (map fst family))
       (init_probabilities family)"
proof -
  have f: "fails_evidence family {''Lily''}"
    by (auto simp: fails_evidence_def family_def)
  have g: "\<not> fails_evidence family {''James'', ''Harry''}"
    by (auto simp: fails_evidence_def family_def)
  note c1 = C3_evidence_filter [of family "{''Lily''}" "map fst family" "[]" "init_probabilities family"]
  note c2 = C3_evidence_filter [of family "{''James'', ''Harry''}" "map fst family" "[]"
      "init_probabilities family"]
  from c1 f have "have_trait_loop family (map fst family) [{''Lily''}] (init_probabilities family) =
     have_trait_loop family (map fst family) [] (init_probabilities family)"
    by blast
  moreover from c2 g have
    "have_trait_loop family (map fst family) [{''James'', ''Harry''}] (init_probabilities family) =
     (case one_gene_loop family (map fst family) {''James'', ''Harry''} (powerset (map fst family))
       (init_probabilities family) of
           Inl err \<Rightarrow> Inl err
         | Inr probabilities' \<Rightarrow> have_trait_loop family (map fst family) [] probabilities')"
    by blast
  ultimately show ?thesis using f g
    by (simp split: sum.splits)
qed

subsection \<open>The enumeration of the hypotheses\<close>

lemma Nil_in_subseqs: "[] \<in> set (subseqs xs)"
  by (induction xs) (simp_all add: Let_def)

lemma length_subseqs_le: "ys \<in> set (subseqs xs) \<Longrightarrow> length ys \<le> length xs"
  by (induction xs arbitrary: ys) (auto simp: Let_def le_SucI)

lemma set_combinations:
  "set (combinations xs r) = {ys \<in> set (subseqs xs). length ys = r}"
proof (induction xs arbitrary: r)
  case Nil
  then show ?case by (cases r) auto
next
  case (Cons x xs)
  show ?case
  proof (cases r)
    case 0
    then show ?thesis using Nil_in_subseqs [of "x # xs"] by auto
  next
    case (Suc k)
    then show ?thesis by (auto simp: Cons.IH Let_def)
  qed
qed

lemma subseqs_subset: "ys \<in> set (subseqs xs) \<Longrightarrow> set ys \<subseteq> set xs"
  using subseqs_powset [of xs] by blast

lemma distinct_combinations: "distinct xs \<Longrightarrow> distinct (combinations xs r)"
proof (induction xs arbitrary: r)
  case Nil
  then show ?case by (cases r) simp_all
next
  case (Cons x xs)
  show ?case
  proof (cases r)
    case 0
    then show ?thesis by simp
  next
    case (Suc k)
    from Cons.prems have x: "x \<notin> set xs" and d: "distinct xs" by simp_all
    have "x # ys \<notin> set (combinations xs (Suc k))" for ys
    proof
      assume "x # ys \<in> set (combinations xs (Suc k))"
      then have "x # ys \<in> set (subseqs xs)" by (simp add: set_combinations)
      from subseqs_subset [OF this] have "x \<in> set xs" by simp
      with x show False by simp
    qed
    then have "(#) x ` set (combinations xs k) \<inter> set (combinations xs (Suc k)) = {}"
      by auto
    then show ?thesis
      using Suc Cons.IH [OF d] by (simp add: distinct_map)
  qed
qed

lemma distinct_concat_map:
  assumes "distinct js"
    and "\<And>i. i \<in> set js \<Longrightarrow> distinct (f i)"
    and "\<And>i j. i \<in> set js \<Longrightarrow> j \<in> set js \<Longrightarrow> i \<noteq> j \<Longrightarrow> set (f i) \<inter> set (f j) = {}"
  shows "distinct (concat (map f js))"
  using assms
proof (induction js)
  case Nil
  then show ?case by simp
next
  case (Cons j js)
  have "distinct (concat (map f js))"
    using Cons.prems by (intro Cons.IH) auto
  moreover have "distinct (f j)" using Cons.prems(2) by simp
  moreover have "set (f j) \<inter> set (f i) = {}" if "i \<in> set js" for i
    using Cons.prems(1) Cons.prems(3) [of j i] that by auto
  ultimately show ?case by auto
qed

lemma set_all_combinations:
  "set (concat (map (combinations xs) [0..<length xs + 1])) = set (subseqs xs)"
proof -
  have "set (concat (map (combinations xs) [0..<length xs + 1])) =
        (\<Union>r \<in> {0..<length xs + 1}. set (combinations xs r))"
    by (simp only: set_concat set_map set_upt image_image)
  also have "\<dots> = set (subseqs xs)"
  proof (rule set_eqI)
    fix ys
    have "ys \<in> set (subseqs xs) \<Longrightarrow> length ys < length xs + 1"
      using length_subseqs_le [of ys xs] by simp
    then show "ys \<in> (\<Union>r \<in> {0..<length xs + 1}. set (combinations xs r)) \<longleftrightarrow>
               ys \<in> set (subseqs xs)"
      unfolding set_combinations by auto
  qed
  finally show ?thesis .
qed

lemma distinct_all_combinations:
  assumes "distinct xs"
  shows "distinct (concat (map (combinations xs) [0..<length xs + 1]))"
proof (rule distinct_concat_map)
  show "distinct [0..<length xs + 1]" by simp
  show "distinct (combinations xs i)" for i by (rule distinct_combinations [OF assms])
  show "set (combinations xs i) \<inter> set (combinations xs j) = {}" if "i \<noteq> j" for i j
    using that by (auto simp: set_combinations)
qed

lemma set_powerset: "set (powerset xs) = Pow (set xs)"
  unfolding powerset_def set_map set_all_combinations by (rule subseqs_powset)

lemma distinct_powerset:
  assumes "distinct xs"
  shows "distinct (powerset xs)"
proof -
  have "inj_on set (set (subseqs xs))"
    using distinct_set_subseqs [OF assms] by (simp add: distinct_map)
  then show ?thesis
    unfolding powerset_def
    by (simp only: distinct_map distinct_all_combinations [OF assms] set_all_combinations)
qed

lemma length_powerset:
  assumes "distinct xs"
  shows "length (powerset xs) = 2 ^ length xs"
proof -
  have "length (powerset xs) = card (set (powerset xs))"
    by (simp add: distinct_card [OF distinct_powerset [OF assms]])
  also have "\<dots> = 2 ^ card (set xs)"
    by (simp add: set_powerset card_Pow)
  finally show ?thesis by (simp add: distinct_card [OF assms])
qed

lemma set_gene_pairs: "set (gene_pairs names) = disjoint_pairs (set names)"
proof -
  have "set (gene_pairs names) =
        (\<Union>A \<in> Pow (set names). Pair A ` Pow {person \<in> set names. person \<notin> A})"
    by (simp add: gene_pairs_def set_powerset)
  also have "\<dots> = {(A, B). A \<subseteq> set names \<and> B \<subseteq> set names \<and> A \<inter> B = {}}"
    by blast
  finally show ?thesis by (simp add: disjoint_pairs_def)
qed

lemma distinct_gene_pairs:
  assumes "distinct names"
  shows "distinct (gene_pairs names)"
  unfolding gene_pairs_def
proof (rule distinct_concat_map)
  show "distinct (powerset names)" by (rule distinct_powerset [OF assms])
  show "distinct (map (Pair one_gene) (powerset (filter (\<lambda>person. person \<notin> one_gene) names)))"
    for one_gene
    using assms by (simp add: distinct_map distinct_powerset inj_on_def)
  show "set (map (Pair i) (powerset (filter (\<lambda>person. person \<notin> i) names))) \<inter>
        set (map (Pair j) (powerset (filter (\<lambda>person. person \<notin> j) names))) = {}"
    if "i \<noteq> j" for i j
    using that by auto
qed

lemma disjoint_pairs_empty: "disjoint_pairs {} = {({}, {})}"
  by (auto simp: disjoint_pairs_def)

lemma disjoint_pairs_insert:
  assumes "x \<notin> N"
  shows "disjoint_pairs (insert x N) =
           disjoint_pairs N
           \<union> (\<lambda>pair. (insert x (fst pair), snd pair)) ` disjoint_pairs N
           \<union> (\<lambda>pair. (fst pair, insert x (snd pair))) ` disjoint_pairs N"
    (is "?L = ?P \<union> ?Q \<union> ?R")
proof (rule set_eqI)
  fix pair :: "'a set \<times> 'a set"
  obtain A B where pair: "pair = (A, B)" by (cases pair)
  show "pair \<in> ?L \<longleftrightarrow> pair \<in> ?P \<union> ?Q \<union> ?R"
  proof
    assume "pair \<in> ?L"
    then have AB: "A \<subseteq> insert x N" "B \<subseteq> insert x N" "A \<inter> B = {}"
      by (simp_all add: pair disjoint_pairs_def)
    consider "x \<in> A" | "x \<in> B" | "x \<notin> A" "x \<notin> B" by blast
    then show "pair \<in> ?P \<union> ?Q \<union> ?R"
    proof cases
      case 1
      then have "(A - {x}, B) \<in> disjoint_pairs N" "A = insert x (A - {x})"
        using AB by (auto simp: disjoint_pairs_def)
      then have "pair \<in> ?Q" unfolding pair by (metis (mono_tags, lifting) fst_conv image_eqI snd_conv)
      then show ?thesis by simp
    next
      case 2
      then have "(A, B - {x}) \<in> disjoint_pairs N" "B = insert x (B - {x})"
        using AB by (auto simp: disjoint_pairs_def)
      then have "pair \<in> ?R" unfolding pair by (metis (mono_tags, lifting) fst_conv image_eqI snd_conv)
      then show ?thesis by simp
    next
      case 3
      then have "pair \<in> ?P" using AB by (auto simp: pair disjoint_pairs_def)
      then show ?thesis by simp
    qed
  next
    assume "pair \<in> ?P \<union> ?Q \<union> ?R"
    then show "pair \<in> ?L"
      using assms by (auto simp: disjoint_pairs_def)
  qed
qed

lemma finite_disjoint_pairs: "finite N \<Longrightarrow> finite (disjoint_pairs N)"
proof -
  assume "finite N"
  then have "finite (Pow N \<times> Pow N)" by simp
  moreover have "disjoint_pairs N \<subseteq> Pow N \<times> Pow N"
    by (auto simp: disjoint_pairs_def)
  ultimately show ?thesis by (rule rev_finite_subset)
qed

lemma card_disjoint_pairs:
  "finite N \<Longrightarrow> card (disjoint_pairs N) = 3 ^ card N"
proof (induction N rule: finite_induct)
  case empty
  then show ?case by (simp add: disjoint_pairs_empty)
next
  case (insert x N)
  let ?P = "disjoint_pairs N"
  let ?Q = "(\<lambda>pair. (insert x (fst pair), snd pair)) ` disjoint_pairs N"
  let ?R = "(\<lambda>pair. (fst pair, insert x (snd pair))) ` disjoint_pairs N"
  have fin: "finite ?P" by (rule finite_disjoint_pairs [OF insert.hyps(1)])
  have notin: "x \<notin> A \<and> x \<notin> B" if "(A, B) \<in> ?P" for A B
    using that insert.hyps(2) by (auto simp: disjoint_pairs_def)
  have injQ: "inj_on (\<lambda>pair. (insert x (fst pair), snd pair)) ?P"
  proof (rule inj_onI)
    fix p q assume p: "p \<in> ?P" and q: "q \<in> ?P"
      and e: "(insert x (fst p), snd p) = (insert x (fst q), snd q)"
    from p q notin [of "fst p" "snd p"] notin [of "fst q" "snd q"]
    have "x \<notin> fst p" "x \<notin> fst q" by simp_all
    with e have "fst p = fst q" "snd p = snd q" by (auto dest: insert_ident [THEN iffD1, rotated 2])
    then show "p = q" by (simp add: prod_eq_iff)
  qed
  have injR: "inj_on (\<lambda>pair. (fst pair, insert x (snd pair))) ?P"
  proof (rule inj_onI)
    fix p q assume p: "p \<in> ?P" and q: "q \<in> ?P"
      and e: "(fst p, insert x (snd p)) = (fst q, insert x (snd q))"
    from p q notin [of "fst p" "snd p"] notin [of "fst q" "snd q"]
    have "x \<notin> snd p" "x \<notin> snd q" by simp_all
    with e have "fst p = fst q" "snd p = snd q" by (auto dest: insert_ident [THEN iffD1, rotated 2])
    then show "p = q" by (simp add: prod_eq_iff)
  qed
  have cQ: "card ?Q = card ?P" by (rule card_image [OF injQ])
  have cR: "card ?R = card ?P" by (rule card_image [OF injR])
  have dPQ: "?P \<inter> ?Q = {}" using notin by fastforce
  have dPQR: "(?P \<union> ?Q) \<inter> ?R = {}" using notin by fastforce
  have "card (disjoint_pairs (insert x N)) = card (?P \<union> ?Q \<union> ?R)"
    by (simp only: disjoint_pairs_insert [OF insert.hyps(2)])
  also have "\<dots> = card (?P \<union> ?Q) + card ?R"
    using fin by (intro card_Un_disjoint dPQR) auto
  also have "card (?P \<union> ?Q) = card ?P + card ?Q"
    using fin by (intro card_Un_disjoint dPQ) auto
  finally show ?case
    using insert.hyps insert.IH by (simp add: cQ cR)
qed

lemma length_gene_pairs:
  assumes "distinct names"
  shows "length (gene_pairs names) = 3 ^ length names"
proof -
  have "length (gene_pairs names) = card (set (gene_pairs names))"
    by (simp add: distinct_card [OF distinct_gene_pairs [OF assms]])
  also have "\<dots> = 3 ^ card (set names)"
    by (simp add: set_gene_pairs card_disjoint_pairs)
  finally show ?thesis by (simp add: distinct_card [OF assms])
qed

lemma accumulate_append:
  "accumulate people (hs @ hs') probabilities =
     (case accumulate people hs probabilities of
        Inl err \<Rightarrow> Inl err
      | Inr probabilities' \<Rightarrow> accumulate people hs' probabilities')"
  by (induction hs arbitrary: probabilities) (simp_all split: sum.splits)

lemma two_genes_loop_accumulate:
  "two_genes_loop people have_trait one_gene tgs probabilities =
   accumulate people (map (\<lambda>two_genes. (one_gene, two_genes, have_trait)) tgs) probabilities"
  by (induction tgs arbitrary: probabilities) (simp_all split: sum.splits)

lemma one_gene_loop_accumulate:
  "one_gene_loop people names have_trait ogs probabilities =
   accumulate people
     (concat (map (\<lambda>one_gene. map (\<lambda>two_genes. (one_gene, two_genes, have_trait))
                     (powerset (filter (\<lambda>person. person \<notin> one_gene) names))) ogs))
     probabilities"
  by (induction ogs arbitrary: probabilities)
     (simp_all add: accumulate_append two_genes_loop_accumulate split: sum.splits)

lemma gene_pairs_with_trait:
  "map (\<lambda>pair. (fst pair, snd pair, have_trait)) (gene_pairs names) =
   concat (map (\<lambda>one_gene. map (\<lambda>two_genes. (one_gene, two_genes, have_trait))
                     (powerset (filter (\<lambda>person. person \<notin> one_gene) names))) (powerset names))"
  by (simp add: gene_pairs_def map_concat comp_def)

lemma have_trait_loop_accumulate:
  "have_trait_loop people names hts probabilities =
   accumulate people
     (concat (map (\<lambda>have_trait.
                    if fails_evidence people have_trait then []
                    else map (\<lambda>pair. (fst pair, snd pair, have_trait)) (gene_pairs names)) hts))
     probabilities"
  by (induction hts arbitrary: probabilities)
     (simp_all add: accumulate_append one_gene_loop_accumulate gene_pairs_with_trait
        split: sum.splits)

lemma tagged_pairs_iff:
  "(\<exists>t \<in> Pow N. \<not> F t \<and> (a, b, c) \<in> (\<lambda>pair. (fst pair, snd pair, t)) ` D) \<longleftrightarrow>
   (a, b) \<in> D \<and> c \<subseteq> N \<and> \<not> F c"
proof
  assume "\<exists>t \<in> Pow N. \<not> F t \<and> (a, b, c) \<in> (\<lambda>pair. (fst pair, snd pair, t)) ` D"
  then obtain t pair where "t \<subseteq> N" "\<not> F t" "pair \<in> D" "(a, b, c) = (fst pair, snd pair, t)"
    by blast
  then show "(a, b) \<in> D \<and> c \<subseteq> N \<and> \<not> F c" by simp
next
  assume r: "(a, b) \<in> D \<and> c \<subseteq> N \<and> \<not> F c"
  then have "(a, b, c) \<in> (\<lambda>pair. (fst pair, snd pair, c)) ` D"
    by (intro image_eqI [where x = "(a, b)"]) simp_all
  with r show "\<exists>t \<in> Pow N. \<not> F t \<and> (a, b, c) \<in> (\<lambda>pair. (fst pair, snd pair, t)) ` D"
    by blast
qed

lemma set_evaluated:
  "set (evaluated people) =
     {(one_gene, two_genes, have_trait).
        (one_gene, two_genes) \<in> disjoint_pairs (fst ` set people) \<and>
        have_trait \<subseteq> fst ` set people \<and> \<not> fails_evidence people have_trait}"
proof (rule set_eqI)
  fix h :: "string set \<times> string set \<times> string set"
  obtain og tg ht where h: "h = (og, tg, ht)" by (cases h)
  have "h \<in> set (evaluated people) \<longleftrightarrow>
        (\<exists>have_trait \<in> Pow (fst ` set people). \<not> fails_evidence people have_trait \<and>
           h \<in> (\<lambda>pair. (fst pair, snd pair, have_trait)) ` disjoint_pairs (fst ` set people))"
    by (auto simp: evaluated_def set_powerset set_gene_pairs split: if_splits)
  also have "\<dots> \<longleftrightarrow> (og, tg) \<in> disjoint_pairs (fst ` set people) \<and>
        ht \<subseteq> fst ` set people \<and> \<not> fails_evidence people ht"
    unfolding h by (rule tagged_pairs_iff)
  finally show "h \<in> set (evaluated people) \<longleftrightarrow>
     h \<in> {(one_gene, two_genes, have_trait).
        (one_gene, two_genes) \<in> disjoint_pairs (fst ` set people) \<and>
        have_trait \<subseteq> fst ` set people \<and> \<not> fails_evidence people have_trait}"
    by (simp add: h)
qed

lemma distinct_evaluated:
  assumes "distinct (map fst people)"
  shows "distinct (evaluated people)"
  unfolding evaluated_def
proof (rule distinct_concat_map)
  show "distinct (powerset (map fst people))" by (rule distinct_powerset [OF assms])
  show "distinct (if fails_evidence people i then []
          else map (\<lambda>pair. (fst pair, snd pair, i)) (gene_pairs (map fst people)))" for i
    using distinct_gene_pairs [OF assms] by (simp add: distinct_map inj_on_def prod_eq_iff)
  show "set (if fails_evidence people i then []
          else map (\<lambda>pair. (fst pair, snd pair, i)) (gene_pairs (map fst people))) \<inter>
        set (if fails_evidence people j then []
          else map (\<lambda>pair. (fst pair, snd pair, j)) (gene_pairs (map fst people))) = {}"
    if "i \<noteq> j" for i j
    using that by auto
qed

lemma length_concat_const:
  assumes "\<And>x. x \<in> set xs \<Longrightarrow> length (f x) = (if P x then 0 else c)"
  shows "length (concat (map f xs)) = c * length (filter (\<lambda>x. \<not> P x) xs)"
  using assms by (induction xs) (simp_all add: length_concat)

lemma length_evaluated:
  assumes "distinct (map fst people)"
  shows "length (evaluated people) =
     3 ^ length people *
     length (filter (\<lambda>have_trait. \<not> fails_evidence people have_trait) (powerset (map fst people)))"
  unfolding evaluated_def
  using length_gene_pairs [OF assms]
  by (subst length_concat_const [where P = "fails_evidence people" and c = "3 ^ length people"])
     simp_all

lemma no_evidence:
  "\<forall>entry \<in> set people. trait (snd entry) = None \<Longrightarrow> \<not> fails_evidence people have_trait"
  by (simp add: fails_evidence_def list_ex_iff)

lemma joint_probability_spec:
  assumes "both_or_neither people" and "one_gene \<inter> two_genes = {}"
  shows "joint_probability people one_gene two_genes have_trait =
           Inr (spec_joint people one_gene two_genes have_trait)"
  using assms
  by (simp add: joint_probability_paired concat_contribution_spec spec_joint_def)

lemma accumulate_completes:
  assumes "both_or_neither people"
  shows "\<forall>h \<in> set hs. fst h \<inter> fst (snd h) = {} \<Longrightarrow>
         accumulate people hs probabilities = Inr (accumulated people hs probabilities)"
proof (induction hs arbitrary: probabilities)
  case Nil
  then show ?case by (simp add: accumulated_def)
next
  case (Cons h hs)
  from Cons.prems have d: "fst h \<inter> fst (snd h) = {}"
    and rest: "\<forall>h \<in> set hs. fst h \<inter> fst (snd h) = {}"
    by simp_all
  have jp: "joint_probability people (fst h) (fst (snd h)) (snd (snd h)) =
          Inr (spec_joint people (fst h) (fst (snd h)) (snd (snd h)))"
    by (rule joint_probability_spec [OF assms d])
  show ?case
    using Cons.IH [OF rest] by (simp add: jp accumulated_def)
qed

lemma evaluated_disjoint: "\<forall>h \<in> set (evaluated people). fst h \<inter> fst (snd h) = {}"
  by (auto simp: set_evaluated disjoint_pairs_def)

text \<open>
  C2, as the code has it. For a population of n people with distinct names in which every
  person has both parents or neither, the three nested loops run to the end, and they
  evaluate and accumulate the hypotheses of the list \<open>evaluated\<close>, each once: every triple
  of disjoint \<open>one_gene\<close>, \<open>two_genes\<close> and a \<open>have_trait\<close> that passes the evidence check,
  and no other. There are 2 to the n trait subsets and 3 to the n gene pairs; the number
  of evaluations is 3 to the n times the number of trait subsets that pass the check,
  which is 2 to the n times 3 to the n when no trait is observed.
\<close>

theorem C2_enumeration:
  assumes "distinct (map fst people)" and "both_or_neither people"
  shows "have_trait_loop people (map fst people) (powerset (map fst people)) probabilities =
           accumulate people (evaluated people) probabilities
       \<and> distinct (evaluated people)
       \<and> set (evaluated people) =
           {(one_gene, two_genes, have_trait).
              one_gene \<subseteq> fst ` set people \<and> two_genes \<subseteq> fst ` set people \<and>
              one_gene \<inter> two_genes = {} \<and>
              have_trait \<subseteq> fst ` set people \<and> \<not> fails_evidence people have_trait}
       \<and> length (powerset (map fst people)) = 2 ^ length people
       \<and> length (gene_pairs (map fst people)) = 3 ^ length people
       \<and> length (evaluated people) =
           3 ^ length people *
           length (filter (\<lambda>have_trait. \<not> fails_evidence people have_trait)
                     (powerset (map fst people)))
       \<and> distinct (powerset (map fst people))
       \<and> set (powerset (map fst people)) = Pow (fst ` set people)
       \<and> distinct (gene_pairs (map fst people))
       \<and> set (gene_pairs (map fst people)) =
           {(one_gene, two_genes).
              one_gene \<subseteq> fst ` set people \<and> two_genes \<subseteq> fst ` set people \<and>
              one_gene \<inter> two_genes = {}}
       \<and> have_trait_loop people (map fst people) (powerset (map fst people)) probabilities =
           Inr (accumulated people (evaluated people) probabilities)
       \<and> main people =
           normalize (accumulated people (evaluated people) (init_probabilities people))
       \<and> (\<forall>h \<in> set (evaluated people).
             joint_probability people (fst h) (fst (snd h)) (snd (snd h)) =
               Inr (spec_joint people (fst h) (fst (snd h)) (snd (snd h))))
       \<and> ((\<forall>entry \<in> set people. trait (snd entry) = None) \<longrightarrow>
            length (evaluated people) = 2 ^ length people * 3 ^ length people)"
proof (intro conjI)
  have run: "have_trait_loop people (map fst people) (powerset (map fst people)) pr =
           Inr (accumulated people (evaluated people) pr)" for pr
    using accumulate_completes [OF assms(2) evaluated_disjoint, of people pr]
    by (simp only: have_trait_loop_accumulate evaluated_def)
  show "have_trait_loop people (map fst people) (powerset (map fst people)) probabilities =
           Inr (accumulated people (evaluated people) probabilities)"
    by (rule run)
  show "main people =
           normalize (accumulated people (evaluated people) (init_probabilities people))"
    by (simp add: main_def Let_def run)
  show "\<forall>h \<in> set (evaluated people).
             joint_probability people (fst h) (fst (snd h)) (snd (snd h)) =
               Inr (spec_joint people (fst h) (fst (snd h)) (snd (snd h)))"
    using evaluated_disjoint [of people] joint_probability_spec [OF assms(2)] by blast
  show "distinct (powerset (map fst people))" by (rule distinct_powerset [OF assms(1)])
  show "set (powerset (map fst people)) = Pow (fst ` set people)"
    by (simp add: set_powerset)
  show "distinct (gene_pairs (map fst people))" by (rule distinct_gene_pairs [OF assms(1)])
  show "set (gene_pairs (map fst people)) =
           {(one_gene, two_genes).
              one_gene \<subseteq> fst ` set people \<and> two_genes \<subseteq> fst ` set people \<and>
              one_gene \<inter> two_genes = {}}"
    by (simp add: set_gene_pairs disjoint_pairs_def)
  show "have_trait_loop people (map fst people) (powerset (map fst people)) probabilities =
           accumulate people (evaluated people) probabilities"
    by (simp only: have_trait_loop_accumulate evaluated_def)
  show "distinct (evaluated people)" by (rule distinct_evaluated [OF assms(1)])
  show "set (evaluated people) =
           {(one_gene, two_genes, have_trait).
              one_gene \<subseteq> fst ` set people \<and> two_genes \<subseteq> fst ` set people \<and>
              one_gene \<inter> two_genes = {} \<and>
              have_trait \<subseteq> fst ` set people \<and> \<not> fails_evidence people have_trait}"
    by (simp add: set_evaluated disjoint_pairs_def)
  show p: "length (powerset (map fst people)) = 2 ^ length people"
    using length_powerset [OF assms(1)] by simp
  show "length (gene_pairs (map fst people)) = 3 ^ length people"
    using length_gene_pairs [OF assms(1)] by simp
  show l: "length (evaluated people) =
           3 ^ length people *
           length (filter (\<lambda>have_trait. \<not> fails_evidence people have_trait)
                     (powerset (map fst people)))"
    by (rule length_evaluated [OF assms(1)])
  show "(\<forall>entry \<in> set people. trait (snd entry) = None) \<longrightarrow>
            length (evaluated people) = 2 ^ length people * 3 ^ length people"
  proof
    assume "\<forall>entry \<in> set people. trait (snd entry) = None"
    then have "filter (\<lambda>have_trait. \<not> fails_evidence people have_trait)
                 (powerset (map fst people)) = powerset (map fst people)"
      by (simp add: no_evidence)
    with l p show "length (evaluated people) = 2 ^ length people * 3 ^ length people"
      by simp
  qed
qed

lemma upt_family: "[0..<length (map fst family) + 1] = [0, 1, 2, 3]"
  by (simp add: family_def upt_rec [of 0] upt_rec [of 1] upt_rec [of 2] upt_rec [of 3] upt_rec [of 4])

lemma combinations_family_0: "combinations [''Lily'', ''James'', ''Harry''] 0 = [[]]"
  by simp

lemma combinations_family_1: "combinations [''Lily'', ''James'', ''Harry''] 1 = [[''Lily''], [''James''], [''Harry'']]"
  by code_simp

lemma combinations_family_2: "combinations [''Lily'', ''James'', ''Harry''] 2 =
   [[''Lily'', ''James''], [''Lily'', ''Harry''], [''James'', ''Harry'']]"
  by code_simp

lemma combinations_family_3: "combinations [''Lily'', ''James'', ''Harry''] 3 = [[''Lily'', ''James'', ''Harry'']]"
  by code_simp

lemma powerset_family:
  "powerset (map fst family) =
     [{}, {''Lily''}, {''James''}, {''Harry''}, {''Lily'', ''James''}, {''Lily'', ''Harry''},
      {''James'', ''Harry''}, {''Lily'', ''James'', ''Harry''}]"
  unfolding powerset_def upt_family
  by (simp add: family_def combinations_family_0 combinations_family_1 combinations_family_2 combinations_family_3 insert_commute)

lemma consistent_family:
  "filter (\<lambda>have_trait. \<not> fails_evidence family have_trait) (powerset (map fst family)) =
     [{''James''}, {''James'', ''Harry''}]"
proof -
  have "fails_evidence family have_trait \<longleftrightarrow> ''Lily'' \<in> have_trait \<or> ''James'' \<notin> have_trait"
    for have_trait
    by (auto simp: fails_evidence_def family_def)
  then show ?thesis
    unfolding powerset_family by simp
qed

lemma keys_family: "fst ` set family = {''Lily'', ''James'', ''Harry''}"
  by (simp add: family_def)

theorem C2_witness:
  "distinct (map fst family) \<and> both_or_neither family \<and>
   length (evaluated family) = 54 \<and>
   distinct (evaluated family) \<and>
   ({''Harry''}, {''James''}, {''James''}) \<in> set (evaluated family) \<and>
   have_trait_loop family (map fst family) (powerset (map fst family))
       (init_probabilities family) =
     Inr (accumulated family (evaluated family) (init_probabilities family))"
proof -
  have d: "distinct (map fst family)" by (simp add: family_def)
  have n: "length family = 3" by (simp add: family_def)
  note c = C2_enumeration [OF d family_paired, of "init_probabilities family"]
  note c_distinct = c [THEN conjunct2, THEN conjunct1]
  note c_set = c [THEN conjunct2, THEN conjunct2, THEN conjunct1]
  note c_length = c [THEN conjunct2, THEN conjunct2, THEN conjunct2, THEN conjunct2,
      THEN conjunct2, THEN conjunct1]
  note c_run = c [THEN conjunct2, THEN conjunct2, THEN conjunct2, THEN conjunct2,
      THEN conjunct2, THEN conjunct2, THEN conjunct2, THEN conjunct2, THEN conjunct2,
      THEN conjunct2, THEN conjunct1]
  have l: "length (evaluated family) = 54"
    unfolding c_length consistent_family n by simp
  have f: "\<not> fails_evidence family {''James''}"
    by (auto simp: fails_evidence_def family_def)
  have m: "({''Harry''}, {''James''}, {''James''}) \<in> set (evaluated family)"
    unfolding c_set keys_family using f by simp
  from d family_paired l c_distinct m c_run show ?thesis by (intro conjI)
qed

text \<open>
  Without the invariant the loops do not run to the end: Rose has a mother only and comes
  first, so the first hypothesis raises and nothing is accumulated.
\<close>

lemma jp_mother_only_first:
  "joint_probability mother_only_first one_gene two_genes have_trait =
     (if ''Rose'' \<in> one_gene \<and> ''Rose'' \<in> two_genes
      then joint_probability (tl mother_only_first) one_gene two_genes have_trait
      else Inl UnboundLocalError)"
  by (simp add: joint_probability_def mother_only_first_def jp_init_def person_step_def Let_def)

lemma powerset_Cons_hd: "\<exists>rest. powerset xs = {} # rest"
  by (cases xs) (simp_all add: powerset_def upt_rec [of 0])

lemma evaluated_starts:
  assumes "\<not> fails_evidence people {}"
  shows "\<exists>rest. evaluated people = ({}, {}, {}) # rest"
proof -
  obtain hts where hts: "powerset (map fst people) = {} # hts"
    using powerset_Cons_hd by blast
  have "\<exists>rest. gene_pairs (map fst people) = ({}, {}) # rest"
    by (simp add: gene_pairs_def hts)
  then obtain pairs where "gene_pairs (map fst people) = ({}, {}) # pairs" by blast
  then show ?thesis
    using assms by (simp add: evaluated_def hts)
qed

lemma main_mother_only_first: "main mother_only_first = Inl UnboundLocalError"
proof -
  have "\<not> fails_evidence mother_only_first {}"
    by (simp add: fails_evidence_def mother_only_first_def)
  from evaluated_starts [OF this] obtain rest where
    e: "evaluated mother_only_first = ({}, {}, {}) # rest" by blast
  have "accumulate mother_only_first (evaluated mother_only_first)
          (init_probabilities mother_only_first) = Inl UnboundLocalError"
    unfolding e by (simp add: jp_mother_only_first)
  then have "have_trait_loop mother_only_first (map fst mother_only_first)
      (powerset (map fst mother_only_first)) (init_probabilities mother_only_first) =
      Inl UnboundLocalError"
    by (simp only: have_trait_loop_accumulate evaluated_def)
  then show ?thesis
    by (simp add: main_def Let_def)
qed

text \<open>
  With an observed trait not every trait subset reaches the gene loops. Harry is observed
  to have the trait, so the trait subset \<open>{}\<close> is skipped: the hypothesis \<open>({}, {}, {})\<close> is
  never evaluated, and the run evaluates 3 hypotheses, not 2 times 3.
\<close>

lemma powerset_observed_single: "powerset (map fst observed_single) = [{}, {''Harry''}]"
  by (simp add: observed_single_def powerset_single)

lemma fails_observed_single:
  "fails_evidence observed_single have_trait \<longleftrightarrow> ''Harry'' \<notin> have_trait"
  by (auto simp: fails_evidence_def observed_single_def)

lemma gene_pairs_observed_single:
  "gene_pairs (map fst observed_single) = [({}, {}), ({}, {''Harry''}), ({''Harry''}, {})]"
  unfolding gene_pairs_def powerset_observed_single
  by (simp add: observed_single_def powerset_single powerset_Nil)

lemma evaluated_observed_single:
  "evaluated observed_single =
     [({}, {}, {''Harry''}), ({}, {''Harry''}, {''Harry''}), ({''Harry''}, {}, {''Harry''})]"
  unfolding evaluated_def gene_pairs_observed_single powerset_observed_single
  by (simp add: fails_observed_single)

theorem C2_counterexample:
  "distinct (map fst observed_single) \<and> both_or_neither observed_single \<and>
   {} \<subseteq> fst ` set observed_single \<and>
   ({}, {}, {}) \<notin> set (evaluated observed_single) \<and>
   length (evaluated observed_single) = 3 \<and>
   length (evaluated observed_single) \<noteq> 2 ^ length observed_single * 3 ^ length observed_single \<and>
   have_trait_loop observed_single (map fst observed_single)
       (powerset (map fst observed_single)) (init_probabilities observed_single) =
     accumulate observed_single
       [({}, {}, {''Harry''}), ({}, {''Harry''}, {''Harry''}), ({''Harry''}, {}, {''Harry''})]
       (init_probabilities observed_single)"
proof -
  have "have_trait_loop observed_single (map fst observed_single)
       (powerset (map fst observed_single)) (init_probabilities observed_single) =
     accumulate observed_single (evaluated observed_single) (init_probabilities observed_single)"
    by (simp only: have_trait_loop_accumulate evaluated_def)
  then show ?thesis
    by (simp add: evaluated_observed_single)
       (simp add: observed_single_def both_or_neither_def)
qed

end
